theory Spec2Isabelle
  imports
    Complex_Main
    "HOL-Library.Sublist"
    "HOL-Library.AList"
    "HOL-Library.Char_ord"
    "HOL-Library.List_Lexorder"
begin

section \<open>Python string and path primitives used by crp.py\<close>

text \<open>
  Strings are byte strings (\<open>char list\<close>).  \<open>str.startswith\<close> and \<open>str.endswith\<close>
  are the prefix and suffix tests of the list library.
\<close>

definition startswith :: "string \<Rightarrow> string \<Rightarrow> bool" where
  "startswith s p = prefix p s"

definition endswith :: "string \<Rightarrow> string \<Rightarrow> bool" where
  "endswith s p = suffix p s"

text \<open>
  \<open>s.replace(old, new, count)\<close>: the first \<open>count\<close> non-overlapping occurrences of
  \<open>old\<close>, scanning from the left.  The source only calls it with a non-empty \<open>old\<close>;
  for an empty \<open>old\<close> the model returns \<open>s\<close> unchanged and is not Python's result.
\<close>

function replace_count :: "string \<Rightarrow> string \<Rightarrow> nat \<Rightarrow> string \<Rightarrow> string" where
  "replace_count old new n s =
     (if old = [] \<or> n = 0 \<or> s = [] then s
      else if prefix old s then new @ replace_count old new (n - 1) (drop (length old) s)
      else hd s # replace_count old new n (tl s))"
  by pat_completeness auto
termination
  by (relation "measure (\<lambda>(old, new, n, s). length s)") auto

text \<open>\<open>s.replace(old, new)\<close>: every non-overlapping occurrence, from the left.\<close>

function replace :: "string \<Rightarrow> string \<Rightarrow> string \<Rightarrow> string" where
  "replace old new s =
     (if old = [] \<or> s = [] then s
      else if prefix old s then new @ replace old new (drop (length old) s)
      else hd s # replace old new (tl s))"
  by pat_completeness auto
termination
  by (relation "measure (\<lambda>(old, new, s). length s)") auto

declare replace_count.simps [simp del]
declare replace.simps [simp del]

text \<open>\<open>os.path.join(a, b)\<close> and \<open>os.path.basename(p)\<close> of \<open>posixpath\<close>.\<close>

definition path_join :: "string \<Rightarrow> string \<Rightarrow> string" where
  "path_join a b =
     (if startswith b ''/'' then b
      else if a = [] \<or> endswith a ''/'' then a @ b
      else a @ ''/'' @ b)"

definition basename :: "string \<Rightarrow> string" where
  "basename p = rev (takeWhile (\<lambda>c. c \<noteq> CHR ''/'') (rev p))"

section \<open>Errors\<close>

datatype error =
    KeyError string
  | IndexError
  | IOError string
  | ValueError
  | TypeError
  | AttributeError
  | NameError
  | UnicodeEncodeError
  | ToolError string
  | SystemExit

section \<open>find_csv\<close>

text \<open>
  The loop of \<open>find_csv\<close> over \<open>os.listdir(source_directory)\<close>, in the order the
  listing has.  The loop variable \<open>csv_path\<close> is overwritten at every match; the
  \<open>continue\<close> that follows the assignment is the last statement of the body.
\<close>

fun find_csv_loop :: "string \<Rightarrow> string list \<Rightarrow> string \<Rightarrow> string" where
  "find_csv_loop source_directory [] csv_path = csv_path"
| "find_csv_loop source_directory (files # file_list) csv_path =
     find_csv_loop source_directory file_list
       (if endswith files ''.csv'' then
          (if \<not> startswith files ''.'' then path_join source_directory files
           else csv_path)
        else csv_path)"

definition find_csv :: "string \<Rightarrow> string list \<Rightarrow> error + string" where
  "find_csv source_directory file_list =
     (let csv_path = find_csv_loop source_directory file_list '''' in
      if csv_path = '''' then Inl SystemExit else Inr csv_path)"

section \<open>Dictionaries\<close>

text \<open>
  A Python \<open>dict\<close> with string keys whose keys are enumerated by the program (the
  package units) is an association list kept free of duplicate keys by
  \<open>AList.update\<close>; a \<open>dict\<close> that is only read (a CSV record, the tool's
  JSON object) is a map.  A missing key raises \<open>KeyError\<close>.
\<close>

type_synonym package = "(string \<times> string) list"

definition dict_set :: "string \<Rightarrow> string \<Rightarrow> package \<Rightarrow> package" where
  "dict_set k v d = AList.update k v d"

definition dict_get :: "package \<Rightarrow> string \<Rightarrow> error + string" where
  "dict_get d k = (case map_of d k of None \<Rightarrow> Inl (KeyError k) | Some v \<Rightarrow> Inr v)"

definition keys :: "package \<Rightarrow> string list" where
  "keys d = map fst d"

definition lookup :: "(string \<rightharpoonup> 'v) \<Rightarrow> string \<Rightarrow> error + 'v" where
  "lookup m k = (case m k of None \<Rightarrow> Inl (KeyError k) | Some v \<Rightarrow> Inr v)"

text \<open>Sequencing of steps that may raise: the first exception ends the computation.\<close>

definition and_then :: "error + 'a \<Rightarrow> ('a \<Rightarrow> error + 'b) \<Rightarrow> error + 'b" where
  "and_then m f = (case m of Inl e \<Rightarrow> Inl e | Inr x \<Rightarrow> f x)"

fun map_e :: "('a \<Rightarrow> error + 'b) \<Rightarrow> 'a list \<Rightarrow> error + 'b list" where
  "map_e f [] = Inr []"
| "map_e f (x # xs) = and_then (f x) (\<lambda>y. and_then (map_e f xs) (\<lambda>ys. Inr (y # ys)))"

section \<open>analyse_folder\<close>

text \<open>
  The file system is seen through two calls: \<open>os.listdir(folder_name)\<close>, whose
  result is the parameter \<open>listing\<close> (in any order; the function sorts it), and
  \<open>os.path.isfile\<close>, the parameter \<open>isfile\<close> on full paths.

  \<open>analyse_file\<close> is the body of the \<open>for files in contents\<close> loop: the
  dictionary appended for this directory entry, if any.
\<close>

definition analyse_file :: "string \<Rightarrow> (string \<Rightarrow> bool) \<Rightarrow> string \<Rightarrow> package option" where
  "analyse_file folder_name isfile files =
     (if \<not> startswith files ''.'' then
        if \<not> endswith files ''_01_prsv.tif'' then
          if endswith files ''prsv.tif'' then
            let dictionary = [];
                dictionary = dict_set ''Preservation'' (path_join folder_name files) dictionary;
                dictionary =
                  (if isfile (path_join folder_name (replace ''prsv.tif'' ''01_prsv.tif'' files)) then
                     let dictionary = dict_set ''Preservation_01''
                           (path_join folder_name (replace ''prsv.tif'' ''01_prsv.tif'' files)) dictionary;
                         dictionary = dict_set ''Preservation_01_md5''
                           (path_join folder_name (replace ''prsv.tif'' ''01_prsv.tif'' files @ ''.md5'')) dictionary;
                         dictionary = dict_set ''Access_01''
                           (path_join folder_name (replace ''prsv.tif'' ''01_access.jpg'' files)) dictionary;
                         dictionary = dict_set ''Access_01_md5''
                           (path_join folder_name (replace ''prsv.tif'' ''01_access.jpg'' files @ ''.md5'')) dictionary
                     in dictionary
                   else dictionary);
                access = path_join folder_name (replace ''prsv.tif'' ''access.jpg'' files);
                dictionary = dict_set ''Access'' access dictionary;
                dictionary = dict_set ''access_checksum'' (access @ ''.md5'') dictionary;
                dictionary = dict_set ''master_checksum'' (path_join folder_name files @ ''.md5'') dictionary
            in Some dictionary
          else if endswith files ''.pdf'' then
            let dictionary = [];
                dictionary = dict_set ''Print'' (path_join folder_name files) dictionary;
                dictionary = dict_set ''print_checksum'' (path_join folder_name files @ ''.md5'') dictionary
            in Some dictionary
          else None
        else None
      else None)"

fun analyse_loop :: "string \<Rightarrow> (string \<Rightarrow> bool) \<Rightarrow> string list \<Rightarrow> package list \<Rightarrow> package list" where
  "analyse_loop folder_name isfile [] file_info_list = file_info_list"
| "analyse_loop folder_name isfile (files # contents) file_info_list =
     analyse_loop folder_name isfile contents
       (case analyse_file folder_name isfile files of
          None \<Rightarrow> file_info_list
        | Some dictionary \<Rightarrow> file_info_list @ [dictionary])"

definition analyse_folder :: "string \<Rightarrow> string list \<Rightarrow> (string \<Rightarrow> bool) \<Rightarrow> package list" where
  "analyse_folder folder_name listing isfile =
     analyse_loop folder_name isfile (sort listing) []"

section \<open>Values of the technical-metadata tool\<close>

text \<open>
  \<open>json.loads\<close> gives each field of the tool's object as a number or as a
  (unicode) string.  The model has integers and strings; a character above 127
  stands for a non-ASCII code point.
\<close>

datatype json = JInt int | JStr string

definition digit :: "nat \<Rightarrow> char" where
  "digit d = ''0123456789'' ! d"

function str_nat :: "nat \<Rightarrow> string" where
  "str_nat n = (if n < 10 then [digit n] else str_nat (n div 10) @ [digit (n mod 10)])"
  by pat_completeness auto
termination
  by (relation "measure (\<lambda>n. n)") auto

declare str_nat.simps [simp del]

definition str_int :: "int \<Rightarrow> string" where
  "str_int i = (if i < 0 then CHR ''-'' # str_nat (nat (- i)) else str_nat (nat i))"

text \<open>
  \<open>str(v)\<close>: the decimal digits of a number; a unicode string is encoded with the
  ASCII codec, which raises on any code point above 127.
\<close>

definition py_str :: "json \<Rightarrow> error + string" where
  "py_str v =
     (case v of
        JInt i \<Rightarrow> Inr (str_int i)
      | JStr s \<Rightarrow> if list_all (\<lambda>c. (of_char c :: nat) < 128) s then Inr s
                 else Inl UnicodeEncodeError)"

text \<open>The whitespace of \<open>str.split()\<close> and \<open>str.strip()\<close> on a byte string.\<close>

definition is_space :: "char \<Rightarrow> bool" where
  "is_space c = (c \<in> set [CHR '' '', CHR 0x09, CHR 0x0A, CHR 0x0B, CHR 0x0C, CHR 0x0D])"

fun split_loop :: "string \<Rightarrow> string \<Rightarrow> string list" where
  "split_loop [] word = (if word = [] then [] else [word])"
| "split_loop (c # cs) word =
     (if is_space c then (if word = [] then split_loop cs [] else word # split_loop cs [])
      else split_loop cs (word @ [c]))"

definition split :: "string \<Rightarrow> string list" where
  "split s = split_loop s []"

definition strip :: "string \<Rightarrow> string" where
  "strip s = rev (dropWhile is_space (rev (dropWhile is_space s)))"

definition digit_value :: "char \<Rightarrow> nat option" where
  "digit_value c = map_of (zip ''0123456789'' [0, 1, 2, 3, 4, 5, 6, 7, 8, 9]) c"

fun digits_value :: "string \<Rightarrow> nat \<Rightarrow> nat option" where
  "digits_value [] acc = Some acc"
| "digits_value (c # cs) acc =
     (case digit_value c of None \<Rightarrow> None | Some d \<Rightarrow> digits_value cs (10 * acc + d))"

text \<open>
  \<open>int(s)\<close> on a string: surrounding whitespace is dropped, one sign is allowed,
  and at least one decimal digit must follow; anything else is a \<open>ValueError\<close>.
\<close>

definition int_of_str :: "string \<Rightarrow> error + int" where
  "int_of_str s =
     (let t = strip s;
          negative = (t \<noteq> [] \<and> hd t = CHR ''-'');
          ds = (if t \<noteq> [] \<and> (hd t = CHR ''-'' \<or> hd t = CHR ''+'') then tl t else t)
      in if ds = [] then Inl ValueError
         else (case digits_value ds 0 of
                 None \<Rightarrow> Inl ValueError
               | Some n \<Rightarrow> Inr (if negative then - int n else int n)))"

definition py_int :: "json \<Rightarrow> error + int" where
  "py_int v = (case v of JInt i \<Rightarrow> Inr i | JStr s \<Rightarrow> int_of_str s)"

text \<open>
  Assigning to \<open>element.text\<close> needs a string (lxml raises \<open>TypeError\<close> on a
  number); calling \<open>.replace\<close> on a number is an \<open>AttributeError\<close>.
\<close>

definition text_value :: "json \<Rightarrow> error + string" where
  "text_value v = (case v of JStr s \<Rightarrow> Inr s | JInt i \<Rightarrow> Inl TypeError)"

definition str_method :: "json \<Rightarrow> error + string" where
  "str_method v = (case v of JStr s \<Rightarrow> Inr s | JInt i \<Rightarrow> Inl AttributeError)"

definition lower :: "string \<Rightarrow> string" where
  "lower s =
     map (\<lambda>c. case map_of (zip ''ABCDEFGHIJKLMNOPQRSTUVWXYZ'' ''abcdefghijklmnopqrstuvwxyz'') c of
                None \<Rightarrow> c | Some l \<Rightarrow> l) s"

section \<open>Bit depth (lines 393 to 400 of techncial_metadata)\<close>

definition bit_depth :: "(string \<rightharpoonup> json) \<Rightarrow> error + string" where
  "bit_depth exiftool_json =
     and_then (lookup exiftool_json ''BitsPerSample'') (\<lambda>bps.
     and_then (py_str bps) (\<lambda>s.
       if length s > 1 then
         and_then (map_e int_of_str (split s)) (\<lambda>bits. Inr (str_int (sum_list bits)))
       else
         and_then (py_int bps) (\<lambda>b.
         and_then (lookup exiftool_json ''ColorComponents'') (\<lambda>cc.
         and_then (py_int cc) (\<lambda>c. Inr (str_int (b * c)))))))"

section \<open>Size in megabytes (line 387 of techncial_metadata)\<close>

text \<open>
  \<open>os.path.getsize(p) / 1024 / 1024.0\<close> in Python 2: the first division is between
  two integers and floors; the second is a float division by a power of two, which is
  exact.  \<open>round(x, 2)\<close> rounds to the nearest hundredth, halves away from zero.
  \<open>size_hundredths\<close> is the rounded value counted in hundredths of a megabyte, and
  \<open>str_hundredths\<close> is what \<open>str\<close> prints for it (at most twelve significant
  digits, so below \<open>10^10\<close> megabytes).
\<close>

definition size_hundredths :: "nat \<Rightarrow> nat" where
  "size_hundredths nbytes = nat (round (100 * (rat_of_nat (nbytes div 1024) / 1024)))"

definition str_hundredths :: "nat \<Rightarrow> string" where
  "str_hundredths h =
     str_nat (h div 100) @ ''.'' @
     (if h mod 10 = 0 then [digit (h mod 100 div 10)]
      else [digit (h mod 100 div 10), digit (h mod 10)])"

definition size_text :: "nat \<Rightarrow> string" where
  "size_text nbytes = str_hundredths (size_hundredths nbytes)"

text \<open>
  The spec's wording of the same field: the size in bytes converted to megabytes
  and rounded to two decimal places.
\<close>

definition megabytes_rounded_hundredths :: "nat \<Rightarrow> nat" where
  "megabytes_rounded_hundredths nbytes = nat (round (100 * (rat_of_nat nbytes / (1024 * 1024))))"

section \<open>The XML tree\<close>

text \<open>
  An lxml element: tag, attributes, the text before the first child (\<open>None\<close> when
  the element has no text node; \<open>Some []\<close> after the empty string is assigned to
  \<open>element.text\<close>, which leaves an empty text node), and the child elements.  No
  element of this program has a tail.  Text is taken to be XML-compatible, so
  assigning it does not raise.
\<close>

datatype element =
  Element (el_tag: string) (el_attrib: "(string \<times> string) list")
          (el_text: "string option") (el_children: "element list")

definition new_element :: "string \<Rightarrow> element" where
  "new_element t = Element t [] None []"

text \<open>\<open>parent.insert(index, child)\<close> with an index that is not negative.\<close>

definition list_insert :: "nat \<Rightarrow> 'a \<Rightarrow> 'a list \<Rightarrow> 'a list" where
  "list_insert i x xs = take i xs @ x # drop i xs"

definition insert_child :: "nat \<Rightarrow> element \<Rightarrow> element \<Rightarrow> element" where
  "insert_child index child parent =
     Element (el_tag parent) (el_attrib parent) (el_text parent)
             (list_insert index child (el_children parent))"

definition set_attrib :: "string \<Rightarrow> string \<Rightarrow> element \<Rightarrow> element" where
  "set_attrib k v e =
     Element (el_tag e) (AList.update k v (el_attrib e)) (el_text e) (el_children e)"

definition create_assets_element :: "nat \<Rightarrow> element \<Rightarrow> string \<Rightarrow> element" where
  "create_assets_element index parent dc_element = insert_child index (new_element dc_element) parent"

section \<open>create_instantiations\<close>

definition technical_elements :: "string list" where
  "technical_elements =
     [''digitalFileIdentifier'', ''creationDate'', ''fileExtension'',
      ''standardAndFileWrapper'', ''size'', ''bitDepth'', ''imageWidth'', ''imageLength'',
      ''compression'', ''samplesPerPixel'', ''xResolution'', ''yResolution'', ''md5'',
      ''creatingApplicationAndVersion'', ''derivedFrom'', ''digitizerManufacturer'',
      ''digitizerModel'', ''imageProducer'']"

text \<open>
  The loop over the eighteen names: each new element is inserted into the technical
  element at index \<open>counter\<close>, and the counter only moves when the generation is not
  \<open>Print\<close>.
\<close>

fun technical_loop :: "string \<Rightarrow> nat \<Rightarrow> string list \<Rightarrow> element \<Rightarrow> element" where
  "technical_loop generation counter [] technical_element = technical_element"
| "technical_loop generation counter (elements # rest) technical_element =
     technical_loop generation
       (if \<not> generation = ''Print'' then counter + 1 else counter) rest
       (create_assets_element counter technical_element elements)"

text \<open>
  The subtree \<open>instantations / instantation / technical\<close> that one call creates.
  The source inserts the \<open>instantations\<close> element into \<open>AssetPart_element\<close> first
  (at index 999999) and fills it afterwards through the references it returns;
  here the subtree is the value, its eighteen technical children are addressed by
  their tags (which are distinct), and \<open>techncial_metadata\<close> below inserts the
  finished subtree at the same index.
\<close>

definition create_instantiations :: "nat \<Rightarrow> string \<Rightarrow> element" where
  "create_instantiations instantation_counter generation =
     (let instantiations_element =
            set_attrib ''relationship''
              (if generation = ''Print'' then ''object''
               else ''Page '' @ str_nat instantation_counter)
              (new_element ''instantations'');
          instantiation_element = set_attrib ''generation'' generation (new_element ''instantation'');
          technical_element = technical_loop generation 1 technical_elements (new_element ''technical'')
      in insert_child 99 (insert_child 99 technical_element instantiation_element)
           instantiations_element)"

text \<open>The children of the technical element of such a subtree, read and replaced.\<close>

definition technical_of :: "element \<Rightarrow> element list" where
  "technical_of inst = concat (map el_children (concat (map el_children (el_children inst))))"

definition map_children :: "(element list \<Rightarrow> element list) \<Rightarrow> element \<Rightarrow> element" where
  "map_children f e = Element (el_tag e) (el_attrib e) (el_text e) (f (el_children e))"

definition update_technical :: "element list \<Rightarrow> element \<Rightarrow> element" where
  "update_technical tech inst =
     map_children (map (map_children (map (map_children (\<lambda>_. tech))))) inst"

text \<open>
  \<open>x.text = v\<close>, \<open>x.attrib[k] = v\<close> and \<open>x.getparent().remove(x)\<close> for the child
  \<open>x\<close> of the technical element with the given tag, and reading \<open>x.text\<close> for a
  string method (a missing text is \<open>None\<close>, which has no such method).
\<close>

definition set_text :: "string \<Rightarrow> string \<Rightarrow> element list \<Rightarrow> element list" where
  "set_text t v tech =
     map (\<lambda>e. if el_tag e = t then Element (el_tag e) (el_attrib e) (Some v) (el_children e)
               else e) tech"

definition set_child_attrib :: "string \<Rightarrow> string \<Rightarrow> string \<Rightarrow> element list \<Rightarrow> element list" where
  "set_child_attrib t k v tech = map (\<lambda>e. if el_tag e = t then set_attrib k v e else e) tech"

definition remove_child :: "string \<Rightarrow> element list \<Rightarrow> element list" where
  "remove_child t tech = filter (\<lambda>e. el_tag e \<noteq> t) tech"

definition get_text :: "string \<Rightarrow> element list \<Rightarrow> error + string" where
  "get_text t tech =
     (case find (\<lambda>e. el_tag e = t) tech of
        None \<Rightarrow> Inl AttributeError
      | Some e \<Rightarrow> (case el_text e of None \<Rightarrow> Inl AttributeError | Some v \<Rightarrow> Inr v))"

section \<open>The environment: tool, file sizes, manifests\<close>

text \<open>
  What the program reads from outside: \<open>get_exiftool_json\<close> (the tool's object for a
  path, or the failure of the call), \<open>os.path.getsize\<close> and the content of a file
  opened for reading.
\<close>

datatype env =
  Env (exiftool: "string \<Rightarrow> error + (string \<rightharpoonup> json)")
      (getsize: "string \<Rightarrow> error + nat")
      (read_file: "string \<Rightarrow> error + string")

fun readlines_loop :: "string \<Rightarrow> string \<Rightarrow> string list" where
  "readlines_loop [] line = (if line = [] then [] else [line])"
| "readlines_loop (c # cs) line =
     (if c = CHR 0x0A then (line @ [c]) # readlines_loop cs []
      else readlines_loop cs (line @ [c]))"

definition readlines :: "string \<Rightarrow> string list" where
  "readlines content = readlines_loop content []"

definition extract_checksum :: "env \<Rightarrow> string \<Rightarrow> error + string" where
  "extract_checksum e manifest =
     and_then (read_file e manifest) (\<lambda>content.
       case readlines content of
         [] \<Rightarrow> Inl IndexError
       | manifest_line # _ \<Rightarrow> Inr (take 32 manifest_line))"

section \<open>techncial_metadata\<close>

text \<open>
  The body of the inner loop for one generation key, in the order of the source.
  Lines 383 to 390: the fields every instantiation gets.
\<close>

definition universal_fields ::
  "env \<Rightarrow> string \<Rightarrow> (string \<rightharpoonup> json) \<Rightarrow> element list \<Rightarrow> error + element list" where
  "universal_fields e path exiftool_json tech =
     (let tech = set_text ''digitalFileIdentifier'' (basename path) tech in
      and_then (lookup exiftool_json ''FileModifyDate'') (\<lambda>d.
      and_then (str_method d) (\<lambda>d.
      let tech = set_text ''creationDate'' (take 19 (replace_count '':'' ''-'' 2 d)) tech in
      and_then (getsize e path) (\<lambda>nbytes.
      let tech = set_text ''size'' (size_text nbytes) tech;
          tech = set_child_attrib ''size'' ''unit'' ''megabytes'' tech in
      and_then (lookup exiftool_json ''MIMEType'') (\<lambda>m.
      and_then (text_value m) (\<lambda>m.
      let tech = set_text ''standardAndFileWrapper'' m tech in
      and_then (lookup exiftool_json ''FileTypeExtension'') (\<lambda>x.
      and_then (text_value x) (\<lambda>x.
      Inr (set_text ''fileExtension'' x tech)))))))))"

text \<open>Lines 392 to 404: the raster fields, unless the extension is \<open>pdf\<close>.\<close>

definition raster_fields :: "(string \<rightharpoonup> json) \<Rightarrow> element list \<Rightarrow> error + element list" where
  "raster_fields exiftool_json tech =
     and_then (get_text ''fileExtension'' tech) (\<lambda>ext.
       if \<not> lower ext = ''pdf'' then
         and_then (bit_depth exiftool_json) (\<lambda>b.
         let tech = set_text ''bitDepth'' b tech in
         and_then (lookup exiftool_json ''ImageWidth'') (\<lambda>w.
         and_then (py_str w) (\<lambda>w.
         let tech = set_text ''imageWidth'' w tech in
         and_then (lookup exiftool_json ''ImageHeight'') (\<lambda>h.
         and_then (py_str h) (\<lambda>h.
         let tech = set_text ''imageLength'' h tech in
         and_then (lookup exiftool_json ''XResolution'') (\<lambda>x.
         and_then (py_str x) (\<lambda>x.
         let tech = set_text ''xResolution'' x tech in
         and_then (lookup exiftool_json ''YResolution'') (\<lambda>y.
         and_then (py_str y) (\<lambda>y.
         Inr (set_text ''yResolution'' y tech))))))))))
       else Inr tech)"

text \<open>Lines 405 to 419: derivation reference and checksum, by generation key.\<close>

definition derivation_fields ::
  "env \<Rightarrow> (string \<rightharpoonup> string) \<Rightarrow> package \<Rightarrow> string \<Rightarrow> element list \<Rightarrow> error + element list" where
  "derivation_fields e csv_record package sub_item tech =
     (if sub_item = ''Preservation'' then
        and_then (lookup csv_record ''Object Identifier'') (\<lambda>d.
        let tech = set_text ''derivedFrom'' d tech in
        and_then (dict_get package ''master_checksum'') (\<lambda>manifest.
        and_then (extract_checksum e manifest) (\<lambda>checksum.
        Inr (set_text ''md5'' checksum tech))))
      else if sub_item = ''Access'' then
        and_then (dict_get package ''Preservation'') (\<lambda>p.
        let tech = set_text ''derivedFrom'' (basename p) tech in
        and_then (dict_get package ''access_checksum'') (\<lambda>manifest.
        and_then (extract_checksum e manifest) (\<lambda>checksum.
        Inr (set_text ''md5'' checksum tech))))
      else if sub_item = ''Print'' then
        (let tech = set_text ''derivedFrom'' ''Bound from multiple tiff files'' tech in
        and_then (dict_get package ''print_checksum'') (\<lambda>manifest.
        and_then (extract_checksum e manifest) (\<lambda>checksum.
        Inr (set_text ''md5'' checksum tech))))
      else if sub_item = ''Preservation_01'' then
        and_then (lookup csv_record ''Object Identifier'') (\<lambda>d.
        let tech = set_text ''derivedFrom'' d tech in
        and_then (dict_get package ''Preservation_01_md5'') (\<lambda>manifest.
        and_then (extract_checksum e manifest) (\<lambda>checksum.
        Inr (set_text ''md5'' checksum tech))))
      else if sub_item = ''Access_01'' then
        and_then (dict_get package ''Preservation'') (\<lambda>p.
        let tech = set_text ''derivedFrom'' (basename p) tech in
        and_then (dict_get package ''Access_01_md5'') (\<lambda>manifest.
        and_then (extract_checksum e manifest) (\<lambda>checksum.
        Inr (set_text ''md5'' checksum tech))))
      else Inr tech)"

text \<open>
  Lines 420 to 439: five \<open>try\<close> blocks.  Each reads one key of the tool's object;
  a \<open>KeyError\<close> is caught and the element is removed from its parent, any other
  exception of the assignment is not caught.
\<close>

definition optional_field ::
  "(string \<rightharpoonup> json) \<Rightarrow> string \<Rightarrow> string \<Rightarrow> element list \<Rightarrow> error + element list" where
  "optional_field exiftool_json key t tech =
     (case exiftool_json key of
        None \<Rightarrow> Inr (remove_child t tech)
      | Some v \<Rightarrow> and_then (py_str v) (\<lambda>s. Inr (set_text t s tech)))"

definition optional_fields :: "(string \<rightharpoonup> json) \<Rightarrow> element list \<Rightarrow> error + element list" where
  "optional_fields exiftool_json tech =
     and_then (optional_field exiftool_json ''ColorComponents'' ''samplesPerPixel'' tech) (\<lambda>tech.
     and_then (optional_field exiftool_json ''Compression'' ''compression'' tech) (\<lambda>tech.
     and_then (optional_field exiftool_json ''CreatorTool'' ''creatingApplicationAndVersion'' tech) (\<lambda>tech.
     and_then (optional_field exiftool_json ''Make'' ''digitizerManufacturer'' tech) (\<lambda>tech.
     optional_field exiftool_json ''Model'' ''digitizerModel'' tech))))"

text \<open>
  Lines 355 to 439 for one of the five generation keys: the finished
  \<open>instantations\<close> subtree, or the exception that ends the run.
\<close>

definition instantation_generation :: "string \<Rightarrow> string" where
  "instantation_generation sub_item =
     (if sub_item = ''Preservation_01'' then ''Preservation''
      else if sub_item = ''Access_01'' then ''Access''
      else sub_item)"

definition sub_item_instantiation ::
  "env \<Rightarrow> (string \<rightharpoonup> string) \<Rightarrow> package \<Rightarrow> nat \<Rightarrow> string \<Rightarrow> error + element" where
  "sub_item_instantiation e csv_record package instantiation_counter sub_item =
     (let inst = create_instantiations instantiation_counter (instantation_generation sub_item);
          tech = set_text ''md5'' '''' (technical_of inst) in
      and_then (dict_get package sub_item) (\<lambda>path.
      and_then (exiftool e path) (\<lambda>exiftool_json.
      and_then (universal_fields e path exiftool_json tech) (\<lambda>tech.
      and_then (raster_fields exiftool_json tech) (\<lambda>tech.
      and_then (derivation_fields e csv_record package sub_item tech) (\<lambda>tech.
      and_then (optional_fields exiftool_json tech) (\<lambda>tech.
      Inr (update_technical tech inst))))))))"

definition generation_keys :: "string list" where
  "generation_keys = [''Access'', ''Preservation'', ''Print'', ''Preservation_01'', ''Access_01'']"

text \<open>
  The inner loop over \<open>sorted(package.keys(), reverse=True)\<close>.  The state is the
  \<open>AssetPart\<close> element and the loop variable \<open>sub_item\<close>, which the outer loop reads
  after the inner loop has ended (\<open>None\<close> while it is unbound).
\<close>

fun sub_item_loop ::
  "env \<Rightarrow> (string \<rightharpoonup> string) \<Rightarrow> package \<Rightarrow> nat \<Rightarrow> string list
     \<Rightarrow> element \<times> string option \<Rightarrow> error + element \<times> string option" where
  "sub_item_loop e csv_record package instantiation_counter [] state = Inr state"
| "sub_item_loop e csv_record package instantiation_counter (sub_item # rest) (AssetPart_element, _) =
     (if sub_item \<in> set generation_keys then
        and_then (sub_item_instantiation e csv_record package instantiation_counter sub_item) (\<lambda>inst.
          sub_item_loop e csv_record package instantiation_counter rest
            (insert_child 999999 inst AssetPart_element, Some sub_item))
      else
        sub_item_loop e csv_record package instantiation_counter rest
          (AssetPart_element, Some sub_item))"

fun package_loop ::
  "env \<Rightarrow> (string \<rightharpoonup> string) \<Rightarrow> package list
     \<Rightarrow> element \<times> nat \<times> string option \<Rightarrow> error + element \<times> nat \<times> string option" where
  "package_loop e csv_record [] state = Inr state"
| "package_loop e csv_record (package # package_info) (AssetPart_element, instantiation_counter, sub_item) =
     and_then (sub_item_loop e csv_record package instantiation_counter
                 (rev (sort (keys package))) (AssetPart_element, sub_item))
       (\<lambda>(AssetPart_element, sub_item).
          case sub_item of
            None \<Rightarrow> Inl NameError
          | Some s \<Rightarrow>
              package_loop e csv_record package_info
                (AssetPart_element,
                 if \<not> s = ''Print'' then instantiation_counter + 1 else instantiation_counter,
                 sub_item))"

definition techncial_metadata ::
  "env \<Rightarrow> package list \<Rightarrow> element \<Rightarrow> (string \<rightharpoonup> string) \<Rightarrow> error + element" where
  "techncial_metadata e package_info AssetPart_element csv_record =
     and_then (package_loop e csv_record package_info (AssetPart_element, 1, None))
       (\<lambda>(AssetPart_element, instantiation_counter, sub_item). Inr AssetPart_element)"

section \<open>The pruning pass of main\<close>

text \<open>
  \<open>root.xpath(".//*[not(node())]")\<close> selects, once, every descendant element that
  has no child node: no text node and no child element.  The loop then removes each
  selected element from its parent.  A selected element has no children, so no
  selected element lies inside another one, and the result is the tree in which
  every element has lost the children that were selected.
\<close>

definition no_node :: "element \<Rightarrow> bool" where
  "no_node e = (el_text e = None \<and> el_children e = [])"

fun prune :: "element \<Rightarrow> element" where
  "prune (Element t a x cs) = Element t a x (map prune (filter (\<lambda>c. \<not> no_node c) cs))"

section \<open>Observations on the output and a sample package\<close>

text \<open>
  The texts of the children of a technical element that carry a given tag, in
  document order: the empty list when the output has no such element.
\<close>

definition texts_of :: "string \<Rightarrow> element list \<Rightarrow> string option list" where
  "texts_of t tech = map el_text (filter (\<lambda>e. el_tag e = t) tech)"

definition relationship :: "element \<Rightarrow> string option" where
  "relationship inst = map_of (el_attrib inst) ''relationship''"

text \<open>
  The five optional fields of lines 420 to 439: the key of the tool's object and the
  tag of the element it fills.
\<close>

definition optional_pairs :: "(string \<times> string) list" where
  "optional_pairs =
     [(''ColorComponents'', ''samplesPerPixel''), (''Compression'', ''compression''),
      (''CreatorTool'', ''creatingApplicationAndVersion''),
      (''Make'', ''digitizerManufacturer''), (''Model'', ''digitizerModel'')]"

definition raster_tags :: "string list" where
  "raster_tags = [''bitDepth'', ''imageWidth'', ''imageLength'', ''xResolution'', ''yResolution'']"

text \<open>The elements below an element, in document order, the element itself left out.\<close>

fun descendants :: "element \<Rightarrow> element list" where
  "descendants (Element t a x cs) = concat (map (\<lambda>c. c # descendants c) cs)"

text \<open>
  The page labels as the specification words them: the counter starts at the given
  number, every instantiation of a unit is labelled with the counter (\<open>object\<close> for
  \<open>Print\<close>), and the counter moves by one after a unit that has a generation other
  than \<open>Print\<close>.
\<close>

definition generations :: "package \<Rightarrow> string list" where
  "generations package = filter (\<lambda>k. k \<in> set generation_keys) (rev (sort (keys package)))"

fun page_labels :: "nat \<Rightarrow> package list \<Rightarrow> string list" where
  "page_labels n [] = []"
| "page_labels n (package # package_info) =
     map (\<lambda>k. if k = ''Print'' then ''object'' else ''Page '' @ str_nat n) (generations package)
     @ page_labels (if list_ex (\<lambda>k. k \<noteq> ''Print'') (generations package) then n + 1 else n)
         package_info"

text \<open>
  A sample object directory \<open>in/obj1\<close>: one bound PDF and two pages, each page with
  a preservation TIFF and an access JPEG, every file with its manifest.
\<close>

definition sample_listing :: "string list" where
  "sample_listing =
     [''p2_prsv.tif'', ''p2_prsv.tif.md5'', ''p2_access.jpg'', ''p2_access.jpg.md5'',
      ''obj1.pdf'', ''obj1.pdf.md5'',
      ''p1_prsv.tif'', ''p1_prsv.tif.md5'', ''p1_access.jpg'', ''p1_access.jpg.md5'']"

definition sample_tiff :: "string \<rightharpoonup> json" where
  "sample_tiff =
     [''FileModifyDate'' \<mapsto> JStr ''2019:01:02 10:11:12+01:00'',
      ''MIMEType'' \<mapsto> JStr ''image/tiff'', ''FileTypeExtension'' \<mapsto> JStr ''tif'',
      ''BitsPerSample'' \<mapsto> JStr ''8 8 8'', ''ImageWidth'' \<mapsto> JInt 100,
      ''ImageHeight'' \<mapsto> JInt 200, ''XResolution'' \<mapsto> JInt 400,
      ''YResolution'' \<mapsto> JInt 400, ''Compression'' \<mapsto> JStr ''Uncompressed'',
      ''Make'' \<mapsto> JStr ''Phase One'']"

definition sample_jpeg :: "string \<rightharpoonup> json" where
  "sample_jpeg =
     [''FileModifyDate'' \<mapsto> JStr ''2019:01:03 09:00:00+01:00'',
      ''MIMEType'' \<mapsto> JStr ''image/jpeg'', ''FileTypeExtension'' \<mapsto> JStr ''jpg'',
      ''BitsPerSample'' \<mapsto> JInt 8, ''ColorComponents'' \<mapsto> JInt 3,
      ''ImageWidth'' \<mapsto> JInt 100, ''ImageHeight'' \<mapsto> JInt 200,
      ''XResolution'' \<mapsto> JInt 72, ''YResolution'' \<mapsto> JInt 72]"

definition sample_pdf :: "string \<rightharpoonup> json" where
  "sample_pdf =
     [''FileModifyDate'' \<mapsto> JStr ''2019:01:04 08:00:00+01:00'',
      ''MIMEType'' \<mapsto> JStr ''application/pdf'', ''FileTypeExtension'' \<mapsto> JStr ''pdf'']"

definition sample_exiftool :: "string \<Rightarrow> error + (string \<rightharpoonup> json)" where
  "sample_exiftool p =
     (if endswith p ''.tif'' then Inr sample_tiff
      else if endswith p ''.jpg'' then Inr sample_jpeg
      else if endswith p ''.pdf'' then Inr sample_pdf
      else Inl (ToolError p))"

definition sample_getsize :: "string \<Rightarrow> error + nat" where
  "sample_getsize p = Inr 123456"

definition sample_read_file :: "string \<Rightarrow> error + string" where
  "sample_read_file p =
     (if endswith p ''.md5'' then Inr (''0123456789abcdef0123456789abcdef  '' @ basename p)
      else Inl (IOError p))"

definition sample_env :: env where
  "sample_env = Env sample_exiftool sample_getsize sample_read_file"

definition sample_csv :: "string \<rightharpoonup> string" where
  "sample_csv = [''Object Identifier'' \<mapsto> ''obj1'']"

definition sample_units :: "package list" where
  "sample_units = analyse_folder ''in/obj1'' sample_listing (\<lambda>p. False)"

text \<open>
  The children of a fresh technical element, as \<open>technical_loop\<close> is shown below to
  leave them: the declared order, or for \<open>Print\<close> the first name followed by the
  others in reverse.
\<close>

definition template :: "string \<Rightarrow> element list" where
  "template g =
     map new_element
       (if g = ''Print'' then hd technical_elements # rev (tl technical_elements)
        else technical_elements)"

text \<open>
  The key of the package unit that holds the manifest path of each generation key
  (lines 405 to 419).
\<close>

definition checksum_keys :: "(string \<times> string) list" where
  "checksum_keys =
     [(''Preservation'', ''master_checksum''), (''Preservation_01'', ''Preservation_01_md5''),
      (''Access'', ''access_checksum''), (''Access_01'', ''Access_01_md5''),
      (''Print'', ''print_checksum'')]"

text \<open>The two kinds of unit that the analyser finds in the sample directory.\<close>

definition sample_print_unit :: package where
  "sample_print_unit =
     [(''Print'', ''in/obj1/obj1.pdf''), (''print_checksum'', ''in/obj1/obj1.pdf.md5'')]"

definition sample_page_unit :: package where
  "sample_page_unit =
     [(''Preservation'', ''in/obj1/p1_prsv.tif''), (''Access'', ''in/obj1/p1_access.jpg''),
      (''access_checksum'', ''in/obj1/p1_access.jpg.md5''),
      (''master_checksum'', ''in/obj1/p1_prsv.tif.md5'')]"

section \<open>Results\<close>

subsection \<open>Choice of the CSV file\<close>

lemma find_csv_loop_append:
  "find_csv_loop d (xs @ ys) acc = find_csv_loop d ys (find_csv_loop d xs acc)"
  by (induction xs arbitrary: acc) simp_all

lemma find_csv_last_match:
  assumes "endswith f ''.csv''" and "\<not> startswith f ''.''"
    and "\<forall>g \<in> set after. \<not> (endswith g ''.csv'' \<and> \<not> startswith g ''.'')"
  shows "find_csv_loop d (before @ f # after) acc = path_join d f"
proof -
  have skip: "find_csv_loop d after p = p" for p
    using assms(3) by (induction after arbitrary: p) auto
  show ?thesis
    using assms(1,2) by (simp add: find_csv_loop_append skip)
qed

text \<open>
  C7.  The claim: without an explicit CSV path the program uses the first non-hidden
  \<open>.csv\<close> file of the input directory, and exits with a message when there is none.
  The docstring of \<open>find_csv\<close> says the same ("This will just use the first CSV
  that it finds"), but the loop does not stop at a match: on a listing that holds
  \<open>a.csv\<close> and then \<open>b.csv\<close> the function returns the path of \<open>b.csv\<close>, the last
  match, while an empty listing ends the program.
\<close>

theorem find_csv_returns_last_match:
  "find_csv ''in'' [''a.csv'', ''b.csv''] = Inr ''in/b.csv''
   \<and> find_csv ''in'' [''.hidden.csv'', ''notes.txt''] = Inl SystemExit"
  by code_simp

subsection \<open>Bit depth\<close>

text \<open>
  C1.  The claim: a single numeric bits-per-sample value is multiplied by the
  colour components, several space-separated values are summed; 8 with 3 components
  gives 24 and \<open>8 8 8\<close> gives 24.  The code chooses the branch by the length of the
  printed value, so the two examples hold, but a single value of two digits takes
  the summing branch: 12 bits per sample with 3 components gives 12, not 36.
\<close>

theorem bit_depth_two_digit_single_value:
  "bit_depth [''BitsPerSample'' \<mapsto> JInt 12, ''ColorComponents'' \<mapsto> JInt 3] = Inr ''12''
   \<and> bit_depth [''BitsPerSample'' \<mapsto> JInt 8, ''ColorComponents'' \<mapsto> JInt 3] = Inr ''24''
   \<and> bit_depth [''BitsPerSample'' \<mapsto> JStr ''8 8 8''] = Inr ''24''"
  by code_simp

subsection \<open>Size in megabytes\<close>

lemma round_frac:
  assumes "b > 0"
  shows "round (rat_of_nat a / rat_of_nat b) = (2 * int a + int b) div (2 * int b)"
proof -
  have "rat_of_nat a / rat_of_nat b + 1 / 2 = rat_of_int (2 * int a + int b) / rat_of_int (2 * int b)"
    using assms by (simp add: field_simps)
  then show ?thesis
    unfolding round_def by (simp only: floor_divide_of_int_eq)
qed

lemma size_hundredths_int: "size_hundredths n = (200 * (n div 1024) + 1024) div 2048"
proof -
  have "100 * (rat_of_nat (n div 1024) / 1024) = rat_of_nat (100 * (n div 1024)) / rat_of_nat 1024"
    by simp
  then have "round (100 * (rat_of_nat (n div 1024) / 1024))
      = (2 * int (100 * (n div 1024)) + int 1024) div (2 * int 1024)"
    by (simp only: round_frac)
  then show ?thesis
    unfolding size_hundredths_def by (simp add: nat_div_distrib nat_add_distrib nat_mult_distrib)
qed

lemma megabytes_int: "megabytes_rounded_hundredths n = (200 * n + 1048576) div 2097152"
proof -
  have "100 * (rat_of_nat n / (1024 * 1024)) = rat_of_nat (100 * n) / rat_of_nat 1048576"
    by simp
  then have "round (100 * (rat_of_nat n / (1024 * 1024)))
      = (2 * int (100 * n) + int 1048576) div (2 * int 1048576)"
    by (simp only: round_frac)
  then show ?thesis
    unfolding megabytes_rounded_hundredths_def
    by (simp add: nat_div_distrib nat_add_distrib nat_mult_distrib)
qed

text \<open>
  C8.  The claim: the size field is the size in bytes converted to megabytes and
  rounded to two decimal places, for every byte size.  The comment on the line says
  the same, but the first division floors to whole kibibytes: a file of 5243 bytes
  (0.0050001 megabytes, which rounds to 0.01) is written as 0.0.
\<close>

theorem size_floors_to_kibibytes_first:
  "size_hundredths 5243 = 0 \<and> megabytes_rounded_hundredths 5243 = 1
   \<and> size_text 5243 = ''0.0''"
proof (intro conjI)
  show "size_hundredths 5243 = 0"
    by (simp add: size_hundredths_int)
  show "megabytes_rounded_hundredths 5243 = 1"
    by (simp add: megabytes_int)
  show "size_text 5243 = ''0.0''"
    by code_simp
qed

subsection \<open>The package analyser\<close>

lemma analyse_loop_map_filter:
  "analyse_loop folder isfile xs acc = acc @ List.map_filter (analyse_file folder isfile) xs"
  by (induction xs arbitrary: acc) (simp_all add: List.map_filter_simps split: option.split)

lemma analyse_folder_map_filter:
  "analyse_folder folder listing isfile = List.map_filter (analyse_file folder isfile) (sort listing)"
  by (simp add: analyse_folder_def analyse_loop_map_filter)

lemma analyse_folder_member:
  "u \<in> set (analyse_folder folder listing isfile) \<longleftrightarrow>
     (\<exists>f \<in> set listing. analyse_file folder isfile f = Some u)"
proof -
  have "set (List.map_filter g xs) = {y. \<exists>x \<in> set xs. g x = Some y}" for g :: "string \<Rightarrow> package option" and xs
    by (induction xs) (auto simp: List.map_filter_simps split: option.splits)
  then show ?thesis
    by (auto simp: analyse_folder_map_filter)
qed














lemma analyse_file_cases:
  assumes "analyse_file folder isfile files = Some u"
  shows "(map_of u ''Preservation'' = Some (path_join folder files)
          \<and> map_of u ''Access'' = Some (path_join folder (replace ''prsv.tif'' ''access.jpg'' files))
          \<and> map_of u ''access_checksum'' =
              Some (path_join folder (replace ''prsv.tif'' ''access.jpg'' files) @ ''.md5'')
          \<and> map_of u ''master_checksum'' = Some (path_join folder files @ ''.md5'')
          \<and> map_of u ''Print'' = None \<and> map_of u ''print_checksum'' = None
          \<and> (map_of u ''Preservation_01'' \<noteq> None) =
              isfile (path_join folder (replace ''prsv.tif'' ''01_prsv.tif'' files)))
       \<or> (map_of u ''Print'' = Some (path_join folder files)
          \<and> map_of u ''print_checksum'' = Some (path_join folder files @ ''.md5'')
          \<and> map_of u ''Preservation'' = None \<and> map_of u ''Access'' = None
          \<and> map_of u ''access_checksum'' = None \<and> map_of u ''master_checksum'' = None)"
  using assms unfolding analyse_file_def
  by (auto simp: dict_set_def Let_def split: if_splits)



text \<open>
  C10.  Every unit of the package analyser comes from one directory entry and has
  either \<open>Preservation\<close> or \<open>Print\<close>, never both and never neither.  With
  \<open>Preservation\<close> it has \<open>Access\<close>, \<open>access_checksum\<close> and \<open>master_checksum\<close>, whose
  values are fixed string substitutions on the entry's name that do not depend on
  what exists on disk; with \<open>Print\<close> it has \<open>print_checksum\<close>.  The only existence
  test is the one on the variant preservation file, which decides whether the
  \<open>_01\<close> keys are present.
\<close>

theorem analyse_folder_unit_keys:
  "\<forall>u \<in> set (analyse_folder folder listing isfile). \<exists>files \<in> set listing.
       (map_of u ''Preservation'' = Some (path_join folder files)
          \<and> map_of u ''Access'' = Some (path_join folder (replace ''prsv.tif'' ''access.jpg'' files))
          \<and> map_of u ''access_checksum'' =
              Some (path_join folder (replace ''prsv.tif'' ''access.jpg'' files) @ ''.md5'')
          \<and> map_of u ''master_checksum'' = Some (path_join folder files @ ''.md5'')
          \<and> map_of u ''Print'' = None \<and> map_of u ''print_checksum'' = None
          \<and> (map_of u ''Preservation_01'' \<noteq> None) =
              isfile (path_join folder (replace ''prsv.tif'' ''01_prsv.tif'' files)))
       \<or> (map_of u ''Print'' = Some (path_join folder files)
          \<and> map_of u ''print_checksum'' = Some (path_join folder files @ ''.md5'')
          \<and> map_of u ''Preservation'' = None \<and> map_of u ''Access'' = None
          \<and> map_of u ''access_checksum'' = None \<and> map_of u ''master_checksum'' = None)"
proof
  fix u
  assume "u \<in> set (analyse_folder folder listing isfile)"
  then obtain files where "files \<in> set listing" and "analyse_file folder isfile files = Some u"
    unfolding analyse_folder_member by blast
  from analyse_file_cases[OF this(2)] show "\<exists>files \<in> set listing.
       (map_of u ''Preservation'' = Some (path_join folder files)
          \<and> map_of u ''Access'' = Some (path_join folder (replace ''prsv.tif'' ''access.jpg'' files))
          \<and> map_of u ''access_checksum'' =
              Some (path_join folder (replace ''prsv.tif'' ''access.jpg'' files) @ ''.md5'')
          \<and> map_of u ''master_checksum'' = Some (path_join folder files @ ''.md5'')
          \<and> map_of u ''Print'' = None \<and> map_of u ''print_checksum'' = None
          \<and> (map_of u ''Preservation_01'' \<noteq> None) =
              isfile (path_join folder (replace ''prsv.tif'' ''01_prsv.tif'' files)))
       \<or> (map_of u ''Print'' = Some (path_join folder files)
          \<and> map_of u ''print_checksum'' = Some (path_join folder files @ ''.md5'')
          \<and> map_of u ''Preservation'' = None \<and> map_of u ''Access'' = None
          \<and> map_of u ''access_checksum'' = None \<and> map_of u ''master_checksum'' = None)"
    by (rule bexI[OF _ \<open>files \<in> set listing\<close>])
qed

theorem analyse_folder_unit_keys_witness:
  "[(''Print'', ''d/p.pdf''), (''print_checksum'', ''d/p.pdf.md5'')]
     \<in> set (analyse_folder ''d'' [''p.pdf'', ''X_prsv.tif''] (\<lambda>p. False))
   \<and> (\<exists>files \<in> set [''p.pdf'', ''X_prsv.tif''].
         map_of [(''Print'', ''d/p.pdf''), (''print_checksum'', ''d/p.pdf.md5'')] ''Print''
           = Some (path_join ''d'' files))"
proof -
  have m: "[(''Print'', ''d/p.pdf''), (''print_checksum'', ''d/p.pdf.md5'')]
     \<in> set (analyse_folder ''d'' [''p.pdf'', ''X_prsv.tif''] (\<lambda>p. False))"
    by code_simp
  from analyse_folder_unit_keys[rule_format, OF m]
  have "\<exists>files \<in> set [''p.pdf'', ''X_prsv.tif''].
         map_of [(''Print'', ''d/p.pdf''), (''print_checksum'', ''d/p.pdf.md5'')] ''Print''
           = Some (path_join ''d'' files)"
    by auto
  with m show ?thesis by (rule conjI)
qed

subsection \<open>Sequencing\<close>

lemma and_then_simps [simp]:
  "and_then (Inr x) f = f x" "and_then (Inl err) f = Inl err"
  by (simp_all add: and_then_def)

lemma and_then_Inr [simp]:
  "and_then m f = Inr y \<longleftrightarrow> (\<exists>x. m = Inr x \<and> f x = Inr y)"
  by (cases m) simp_all

lemma and_then_weak_cong: "m = m' \<Longrightarrow> and_then m f = and_then m' f"
  by simp

subsection \<open>Children of the technical element\<close>

lemma tags_set_text [simp]: "map el_tag (set_text t v tech) = map el_tag tech"
  by (induction tech) (simp_all add: set_text_def)

lemma tags_set_child_attrib [simp]: "map el_tag (set_child_attrib t k v tech) = map el_tag tech"
  by (induction tech) (simp_all add: set_child_attrib_def set_attrib_def)

lemma tags_remove_child [simp]:
  "map el_tag (remove_child t tech) = filter (\<lambda>x. x \<noteq> t) (map el_tag tech)"
  by (induction tech) (simp_all add: remove_child_def)

lemma texts_of_set_text [simp]:
  "texts_of t (set_text t' v tech) =
     (if t = t' then map (\<lambda>_. Some v) (texts_of t tech) else texts_of t tech)"
  by (induction tech) (auto simp: texts_of_def set_text_def)

lemma texts_of_set_child_attrib [simp]:
  "texts_of t (set_child_attrib t' k v tech) = texts_of t tech"
  by (induction tech) (auto simp: texts_of_def set_child_attrib_def set_attrib_def)

lemma texts_of_remove_child [simp]:
  "texts_of t (remove_child t' tech) = (if t = t' then [] else texts_of t tech)"
  by (induction tech) (auto simp: texts_of_def remove_child_def)

lemma texts_of_new_elements:
  "texts_of t (map new_element ts) = replicate (count_list ts t) None"
  by (induction ts) (auto simp: texts_of_def new_element_def)

subsection \<open>The template\<close>

lemma technical_loop_fields:
  "el_tag (technical_loop g n ts el) = el_tag el
   \<and> el_attrib (technical_loop g n ts el) = el_attrib el
   \<and> el_text (technical_loop g n ts el) = el_text el"
  by (induction ts arbitrary: n el) (simp_all add: create_assets_element_def insert_child_def)

lemma technical_loop_appends:
  assumes "g \<noteq> ''Print''" and "length (el_children el) \<le> n"
  shows "el_children (technical_loop g n ts el) = el_children el @ map new_element ts"
  using assms(2)
proof (induction ts arbitrary: n el)
  case Nil
  then show ?case by simp
next
  case (Cons t ts)
  have "el_children (create_assets_element n el t) = el_children el @ [new_element t]"
    using Cons.prems by (simp add: create_assets_element_def insert_child_def list_insert_def)
  moreover have "length (el_children (create_assets_element n el t)) \<le> n + 1"
    using Cons.prems by (simp add: create_assets_element_def insert_child_def list_insert_def)
  ultimately show ?case
    using assms(1) Cons.IH[of "create_assets_element n el t" "n + 1"] by simp
qed

lemma technical_loop_print:
  "el_children (technical_loop ''Print'' 1 ts (Element tg a x (c # cs)))
     = c # rev (map new_element ts) @ cs"
proof (induction ts arbitrary: cs)
  case Nil
  then show ?case by simp
next
  case (Cons t ts)
  have "create_assets_element 1 (Element tg a x (c # cs)) t = Element tg a x (c # new_element t # cs)"
    by (simp add: create_assets_element_def insert_child_def list_insert_def)
  then show ?case
    using Cons.IH[of "new_element t # cs"] by simp
qed

lemma template_non_print:
  assumes "g \<noteq> ''Print''"
  shows "technical_loop g 1 technical_elements (new_element ''technical'')
     = Element ''technical'' [] None (map new_element technical_elements)"
proof -
  let ?T = "technical_loop g 1 technical_elements (new_element ''technical'')"
  have "el_children ?T = map new_element technical_elements"
    using technical_loop_appends[OF assms, of "new_element ''technical''" 1 technical_elements]
    by (simp add: new_element_def)
  moreover have "el_tag ?T = ''technical''" "el_attrib ?T = []" "el_text ?T = None"
    by (simp_all add: technical_loop_fields new_element_def)
  ultimately show ?thesis by (cases ?T) simp
qed

lemma technical_loop_print_start:
  assumes "el_children el = []"
  shows "el_children (technical_loop ''Print'' 1 (t # ts) el)
     = new_element t # rev (map new_element ts)"
proof -
  have "create_assets_element 1 el t = Element (el_tag el) (el_attrib el) (el_text el) [new_element t]"
    using assms by (simp add: create_assets_element_def insert_child_def list_insert_def)
  then show ?thesis
    using technical_loop_print[where tg = "el_tag el" and a = "el_attrib el" and x = "el_text el"
        and ts = ts and c = "new_element t" and cs = "[]"]
    by simp
qed

lemma template_print:
  "technical_loop ''Print'' 1 technical_elements (new_element ''technical'')
     = Element ''technical'' [] None
         (map new_element (hd technical_elements # rev (tl technical_elements)))"
proof -
  let ?T = "technical_loop ''Print'' 1 technical_elements (new_element ''technical'')"
  have "el_children ?T
      = new_element (hd technical_elements) # rev (map new_element (tl technical_elements))"
    unfolding technical_elements_def list.sel
    by (rule technical_loop_print_start) (simp add: new_element_def)
  then have "el_children ?T = map new_element (hd technical_elements # rev (tl technical_elements))"
    by (simp add: rev_map)
  moreover have "el_tag ?T = ''technical''" "el_attrib ?T = []" "el_text ?T = None"
    by (simp_all add: technical_loop_fields new_element_def)
  ultimately show ?thesis by (cases ?T) simp
qed

lemma create_instantiations_tree:
  "create_instantiations n g =
     Element ''instantations''
       [(''relationship'', if g = ''Print'' then ''object'' else ''Page '' @ str_nat n)] None
       [Element ''instantation'' [(''generation'', g)] None
         [Element ''technical'' [] None (template g)]]"
proof -
  have "technical_loop g 1 technical_elements (new_element ''technical'')
      = Element ''technical'' [] None (template g)"
  proof (cases "g = ''Print''")
    case True
    then show ?thesis using template_print by (simp add: template_def)
  next
    case False
    then show ?thesis using template_non_print[of g] by (simp add: template_def)
  qed
  then show ?thesis
    unfolding create_instantiations_def Let_def
    by (simp add: insert_child_def list_insert_def set_attrib_def new_element_def)
qed

lemma technical_of_tree [simp]:
  "technical_of (Element a b c [Element d f g [Element h i j tech]]) = tech"
  by (simp add: technical_of_def)

lemma update_technical_tree [simp]:
  "update_technical tech' (Element a b c [Element d f g [Element h i j tech]])
     = Element a b c [Element d f g [Element h i j tech']]"
  by (simp add: update_technical_def map_children_def)

subsection \<open>The stages of one instantiation\<close>

lemma universal_fields_tags:
  assumes "universal_fields e path j tech = Inr tech'"
  shows "map el_tag tech' = map el_tag tech"
  using assms unfolding universal_fields_def by (auto simp: Let_def)

lemma universal_fields_texts:
  assumes "universal_fields e path j tech = Inr tech'"
    and "t \<notin> {''digitalFileIdentifier'', ''creationDate'', ''size'',
               ''standardAndFileWrapper'', ''fileExtension''}"
  shows "texts_of t tech' = texts_of t tech"
  using assms unfolding universal_fields_def by (auto simp: Let_def)

lemma universal_fields_extension:
  assumes "universal_fields e path j tech = Inr tech'"
  shows "\<exists>x. j ''FileTypeExtension'' = Some (JStr x)
           \<and> texts_of ''fileExtension'' tech' = map (\<lambda>_. Some x) (texts_of ''fileExtension'' tech)"
  using assms unfolding universal_fields_def
  by (auto simp: Let_def lookup_def text_value_def split: option.splits json.splits)

lemma raster_fields_tags:
  assumes "raster_fields j tech = Inr tech'"
  shows "map el_tag tech' = map el_tag tech"
  using assms unfolding raster_fields_def by (auto simp: Let_def split: if_splits)

lemma raster_fields_texts:
  assumes "raster_fields j tech = Inr tech'"
    and "t \<notin> set raster_tags"
  shows "texts_of t tech' = texts_of t tech"
  using assms unfolding raster_fields_def raster_tags_def by (auto simp: Let_def split: if_splits)

lemma get_text_texts_of:
  assumes "get_text t tech = Inr v"
  shows "texts_of t tech \<noteq> [] \<and> hd (texts_of t tech) = Some v"
  using assms
  by (induction tech) (auto simp: get_text_def texts_of_def split: option.splits if_splits)

lemma raster_fields_pdf:
  assumes "raster_fields j tech = Inr tech'" and "texts_of ''fileExtension'' tech = [Some x]"
    and "lower x = ''pdf''"
  shows "tech' = tech"
proof -
  from assms(1) obtain ext where ext: "get_text ''fileExtension'' tech = Inr ext"
    unfolding raster_fields_def by auto
  with assms(2) have "ext = x"
    using get_text_texts_of[OF ext] by simp
  with assms(1,3) ext show ?thesis
    unfolding raster_fields_def by simp
qed

lemma derivation_fields_tags:
  assumes "derivation_fields e csv package sub_item tech = Inr tech'"
  shows "map el_tag tech' = map el_tag tech"
  using assms unfolding derivation_fields_def by (auto simp: Let_def split: if_splits)

lemma derivation_fields_texts:
  assumes "derivation_fields e csv package sub_item tech = Inr tech'"
    and "t \<noteq> ''derivedFrom''" and "t \<noteq> ''md5''"
  shows "texts_of t tech' = texts_of t tech"
  using assms unfolding derivation_fields_def by (auto simp: Let_def split: if_splits)

lemma optional_field_result:
  "optional_field j key t tech = Inr tech' \<longleftrightarrow>
     (case j key of
        None \<Rightarrow> tech' = remove_child t tech
      | Some v \<Rightarrow> \<exists>s. py_str v = Inr s \<and> tech' = set_text t s tech)"
  unfolding optional_field_def by (auto split: option.splits)

lemma optional_field_tags:
  assumes "optional_field j key t tech = Inr tech'"
  shows "subseq (map el_tag tech') (map el_tag tech)"
  using assms unfolding optional_field_result by (auto split: option.splits)

lemma optional_fields_tags:
  assumes "optional_fields j tech = Inr tech'"
  shows "subseq (map el_tag tech') (map el_tag tech)"
proof -
  from assms obtain a b c d where s:
    "optional_field j ''ColorComponents'' ''samplesPerPixel'' tech = Inr a"
    "optional_field j ''Compression'' ''compression'' a = Inr b"
    "optional_field j ''CreatorTool'' ''creatingApplicationAndVersion'' b = Inr c"
    "optional_field j ''Make'' ''digitizerManufacturer'' c = Inr d"
    "optional_field j ''Model'' ''digitizerModel'' d = Inr tech'"
    unfolding optional_fields_def by auto
  have "subseq (map el_tag tech') (map el_tag d)" by (rule optional_field_tags[OF s(5)])
  also have "subseq \<dots> (map el_tag c)" by (rule optional_field_tags[OF s(4)])
  also have "subseq \<dots> (map el_tag b)" by (rule optional_field_tags[OF s(3)])
  also have "subseq \<dots> (map el_tag a)" by (rule optional_field_tags[OF s(2)])
  also have "subseq \<dots> (map el_tag tech)" by (rule optional_field_tags[OF s(1)])
  finally show ?thesis .
qed

lemma optional_field_texts_same:
  assumes "optional_field j key t tech = Inr tech'"
  shows "case j key of
           None \<Rightarrow> texts_of t tech' = []
         | Some v \<Rightarrow> \<exists>s. py_str v = Inr s
                       \<and> texts_of t tech' = map (\<lambda>_. Some s) (texts_of t tech)"
  using assms unfolding optional_field_result by (cases "j key") auto

lemma optional_field_texts_other:
  assumes "optional_field j key t tech = Inr tech'" and "t' \<noteq> t"
  shows "texts_of t' tech' = texts_of t' tech"
  using assms unfolding optional_field_result by (cases "j key") auto

lemma optional_fields_steps:
  assumes "optional_fields j tech = Inr tech'"
  obtains a b c d where
    "optional_field j ''ColorComponents'' ''samplesPerPixel'' tech = Inr a"
    "optional_field j ''Compression'' ''compression'' a = Inr b"
    "optional_field j ''CreatorTool'' ''creatingApplicationAndVersion'' b = Inr c"
    "optional_field j ''Make'' ''digitizerManufacturer'' c = Inr d"
    "optional_field j ''Model'' ''digitizerModel'' d = Inr tech'"
  using assms unfolding optional_fields_def by auto

lemma optional_fields_texts_other:
  assumes "optional_fields j tech = Inr tech'" and "t \<notin> snd ` set optional_pairs"
  shows "texts_of t tech' = texts_of t tech"
proof -
  from assms(1) obtain a b c d where s:
    "optional_field j ''ColorComponents'' ''samplesPerPixel'' tech = Inr a"
    "optional_field j ''Compression'' ''compression'' a = Inr b"
    "optional_field j ''CreatorTool'' ''creatingApplicationAndVersion'' b = Inr c"
    "optional_field j ''Make'' ''digitizerManufacturer'' c = Inr d"
    "optional_field j ''Model'' ''digitizerModel'' d = Inr tech'"
    by (rule optional_fields_steps)
  from assms(2) have n: "t \<noteq> ''samplesPerPixel''" "t \<noteq> ''compression''"
    "t \<noteq> ''creatingApplicationAndVersion''" "t \<noteq> ''digitizerManufacturer''"
    "t \<noteq> ''digitizerModel''"
    by (simp_all add: optional_pairs_def)
  have "texts_of t tech' = texts_of t d" by (rule optional_field_texts_other[OF s(5) n(5)])
  also have "\<dots> = texts_of t c" by (rule optional_field_texts_other[OF s(4) n(4)])
  also have "\<dots> = texts_of t b" by (rule optional_field_texts_other[OF s(3) n(3)])
  also have "\<dots> = texts_of t a" by (rule optional_field_texts_other[OF s(2) n(2)])
  also have "\<dots> = texts_of t tech" by (rule optional_field_texts_other[OF s(1) n(1)])
  finally show ?thesis .
qed

lemma optional_fields_texts_1:
  assumes "optional_fields j tech = Inr tech'"
  shows "case j ''ColorComponents'' of
           None \<Rightarrow> texts_of ''samplesPerPixel'' tech' = []
         | Some v \<Rightarrow> \<exists>s. py_str v = Inr s
                       \<and> texts_of ''samplesPerPixel'' tech' = map (\<lambda>_. Some s) (texts_of ''samplesPerPixel'' tech)"
proof -
  from assms obtain a b c d where s:
    "optional_field j ''ColorComponents'' ''samplesPerPixel'' tech = Inr a"
    "optional_field j ''Compression'' ''compression'' a = Inr b"
    "optional_field j ''CreatorTool'' ''creatingApplicationAndVersion'' b = Inr c"
    "optional_field j ''Make'' ''digitizerManufacturer'' c = Inr d"
    "optional_field j ''Model'' ''digitizerModel'' d = Inr tech'"
    by (rule optional_fields_steps)
  have k5: "texts_of ''samplesPerPixel'' tech' = texts_of ''samplesPerPixel'' d"
    by (rule optional_field_texts_other[OF s(5)]) simp
  have k4: "texts_of ''samplesPerPixel'' d = texts_of ''samplesPerPixel'' c"
    by (rule optional_field_texts_other[OF s(4)]) simp
  have k3: "texts_of ''samplesPerPixel'' c = texts_of ''samplesPerPixel'' b"
    by (rule optional_field_texts_other[OF s(3)]) simp
  have k2: "texts_of ''samplesPerPixel'' b = texts_of ''samplesPerPixel'' a"
    by (rule optional_field_texts_other[OF s(2)]) simp
  from optional_field_texts_same[OF s(1)] show ?thesis
    by (cases "j ''ColorComponents''") (simp_all add: k5 k4 k3 k2)
qed

lemma optional_fields_texts_2:
  assumes "optional_fields j tech = Inr tech'"
  shows "case j ''Compression'' of
           None \<Rightarrow> texts_of ''compression'' tech' = []
         | Some v \<Rightarrow> \<exists>s. py_str v = Inr s
                       \<and> texts_of ''compression'' tech' = map (\<lambda>_. Some s) (texts_of ''compression'' tech)"
proof -
  from assms obtain a b c d where s:
    "optional_field j ''ColorComponents'' ''samplesPerPixel'' tech = Inr a"
    "optional_field j ''Compression'' ''compression'' a = Inr b"
    "optional_field j ''CreatorTool'' ''creatingApplicationAndVersion'' b = Inr c"
    "optional_field j ''Make'' ''digitizerManufacturer'' c = Inr d"
    "optional_field j ''Model'' ''digitizerModel'' d = Inr tech'"
    by (rule optional_fields_steps)
  have k5: "texts_of ''compression'' tech' = texts_of ''compression'' d"
    by (rule optional_field_texts_other[OF s(5)]) simp
  have k4: "texts_of ''compression'' d = texts_of ''compression'' c"
    by (rule optional_field_texts_other[OF s(4)]) simp
  have k3: "texts_of ''compression'' c = texts_of ''compression'' b"
    by (rule optional_field_texts_other[OF s(3)]) simp
  have k1: "texts_of ''compression'' a = texts_of ''compression'' tech"
    by (rule optional_field_texts_other[OF s(1)]) simp
  from optional_field_texts_same[OF s(2)] show ?thesis
    by (cases "j ''Compression''") (simp_all add: k5 k4 k3 k1)
qed

lemma optional_fields_texts_3:
  assumes "optional_fields j tech = Inr tech'"
  shows "case j ''CreatorTool'' of
           None \<Rightarrow> texts_of ''creatingApplicationAndVersion'' tech' = []
         | Some v \<Rightarrow> \<exists>s. py_str v = Inr s
                       \<and> texts_of ''creatingApplicationAndVersion'' tech' = map (\<lambda>_. Some s) (texts_of ''creatingApplicationAndVersion'' tech)"
proof -
  from assms obtain a b c d where s:
    "optional_field j ''ColorComponents'' ''samplesPerPixel'' tech = Inr a"
    "optional_field j ''Compression'' ''compression'' a = Inr b"
    "optional_field j ''CreatorTool'' ''creatingApplicationAndVersion'' b = Inr c"
    "optional_field j ''Make'' ''digitizerManufacturer'' c = Inr d"
    "optional_field j ''Model'' ''digitizerModel'' d = Inr tech'"
    by (rule optional_fields_steps)
  have k5: "texts_of ''creatingApplicationAndVersion'' tech' = texts_of ''creatingApplicationAndVersion'' d"
    by (rule optional_field_texts_other[OF s(5)]) simp
  have k4: "texts_of ''creatingApplicationAndVersion'' d = texts_of ''creatingApplicationAndVersion'' c"
    by (rule optional_field_texts_other[OF s(4)]) simp
  have k2: "texts_of ''creatingApplicationAndVersion'' b = texts_of ''creatingApplicationAndVersion'' a"
    by (rule optional_field_texts_other[OF s(2)]) simp
  have k1: "texts_of ''creatingApplicationAndVersion'' a = texts_of ''creatingApplicationAndVersion'' tech"
    by (rule optional_field_texts_other[OF s(1)]) simp
  from optional_field_texts_same[OF s(3)] show ?thesis
    by (cases "j ''CreatorTool''") (simp_all add: k5 k4 k2 k1)
qed

lemma optional_fields_texts_4:
  assumes "optional_fields j tech = Inr tech'"
  shows "case j ''Make'' of
           None \<Rightarrow> texts_of ''digitizerManufacturer'' tech' = []
         | Some v \<Rightarrow> \<exists>s. py_str v = Inr s
                       \<and> texts_of ''digitizerManufacturer'' tech' = map (\<lambda>_. Some s) (texts_of ''digitizerManufacturer'' tech)"
proof -
  from assms obtain a b c d where s:
    "optional_field j ''ColorComponents'' ''samplesPerPixel'' tech = Inr a"
    "optional_field j ''Compression'' ''compression'' a = Inr b"
    "optional_field j ''CreatorTool'' ''creatingApplicationAndVersion'' b = Inr c"
    "optional_field j ''Make'' ''digitizerManufacturer'' c = Inr d"
    "optional_field j ''Model'' ''digitizerModel'' d = Inr tech'"
    by (rule optional_fields_steps)
  have k5: "texts_of ''digitizerManufacturer'' tech' = texts_of ''digitizerManufacturer'' d"
    by (rule optional_field_texts_other[OF s(5)]) simp
  have k3: "texts_of ''digitizerManufacturer'' c = texts_of ''digitizerManufacturer'' b"
    by (rule optional_field_texts_other[OF s(3)]) simp
  have k2: "texts_of ''digitizerManufacturer'' b = texts_of ''digitizerManufacturer'' a"
    by (rule optional_field_texts_other[OF s(2)]) simp
  have k1: "texts_of ''digitizerManufacturer'' a = texts_of ''digitizerManufacturer'' tech"
    by (rule optional_field_texts_other[OF s(1)]) simp
  from optional_field_texts_same[OF s(4)] show ?thesis
    by (cases "j ''Make''") (simp_all add: k5 k3 k2 k1)
qed

lemma optional_fields_texts_5:
  assumes "optional_fields j tech = Inr tech'"
  shows "case j ''Model'' of
           None \<Rightarrow> texts_of ''digitizerModel'' tech' = []
         | Some v \<Rightarrow> \<exists>s. py_str v = Inr s
                       \<and> texts_of ''digitizerModel'' tech' = map (\<lambda>_. Some s) (texts_of ''digitizerModel'' tech)"
proof -
  from assms obtain a b c d where s:
    "optional_field j ''ColorComponents'' ''samplesPerPixel'' tech = Inr a"
    "optional_field j ''Compression'' ''compression'' a = Inr b"
    "optional_field j ''CreatorTool'' ''creatingApplicationAndVersion'' b = Inr c"
    "optional_field j ''Make'' ''digitizerManufacturer'' c = Inr d"
    "optional_field j ''Model'' ''digitizerModel'' d = Inr tech'"
    by (rule optional_fields_steps)
  have k4: "texts_of ''digitizerModel'' d = texts_of ''digitizerModel'' c"
    by (rule optional_field_texts_other[OF s(4)]) simp
  have k3: "texts_of ''digitizerModel'' c = texts_of ''digitizerModel'' b"
    by (rule optional_field_texts_other[OF s(3)]) simp
  have k2: "texts_of ''digitizerModel'' b = texts_of ''digitizerModel'' a"
    by (rule optional_field_texts_other[OF s(2)]) simp
  have k1: "texts_of ''digitizerModel'' a = texts_of ''digitizerModel'' tech"
    by (rule optional_field_texts_other[OF s(1)]) simp
  from optional_field_texts_same[OF s(5)] show ?thesis
    by (cases "j ''Model''") (simp_all add: k4 k3 k2 k1)
qed

lemma optional_fields_texts:
  assumes "optional_fields j tech = Inr tech'"
  shows "\<forall>(key, t) \<in> set optional_pairs.
           case j key of
             None \<Rightarrow> texts_of t tech' = []
           | Some v \<Rightarrow> \<exists>s. py_str v = Inr s
                         \<and> texts_of t tech' = map (\<lambda>_. Some s) (texts_of t tech)"
  unfolding optional_pairs_def
  using optional_fields_texts_1[OF assms] optional_fields_texts_2[OF assms]
    optional_fields_texts_3[OF assms] optional_fields_texts_4[OF assms]
    optional_fields_texts_5[OF assms]
  by simp

lemma optional_fields_no_error:
  assumes "\<forall>(key, t) \<in> set optional_pairs. \<forall>v. j key = Some v \<longrightarrow> (\<exists>s. py_str v = Inr s)"
  shows "\<exists>tech'. optional_fields j tech = Inr tech'"
proof -
  have one: "\<exists>tech'. optional_field j key t tech0 = Inr tech'"
    if "(key, t) \<in> set optional_pairs" for key t tech0
    using assms that unfolding optional_field_result by (cases "j key") auto
  have m: "(''ColorComponents'', ''samplesPerPixel'') \<in> set optional_pairs"
    "(''Compression'', ''compression'') \<in> set optional_pairs"
    "(''CreatorTool'', ''creatingApplicationAndVersion'') \<in> set optional_pairs"
    "(''Make'', ''digitizerManufacturer'') \<in> set optional_pairs"
    "(''Model'', ''digitizerModel'') \<in> set optional_pairs"
    by (simp_all add: optional_pairs_def)
  obtain a where a: "optional_field j ''ColorComponents'' ''samplesPerPixel'' tech = Inr a"
    using one[OF m(1)] by blast
  obtain b where b: "optional_field j ''Compression'' ''compression'' a = Inr b"
    using one[OF m(2)] by blast
  obtain c where c: "optional_field j ''CreatorTool'' ''creatingApplicationAndVersion'' b = Inr c"
    using one[OF m(3)] by blast
  obtain d where d: "optional_field j ''Make'' ''digitizerManufacturer'' c = Inr d"
    using one[OF m(4)] by blast
  obtain f where f: "optional_field j ''Model'' ''digitizerModel'' d = Inr f"
    using one[OF m(5)] by blast
  from a b c d f show ?thesis
    unfolding optional_fields_def by auto
qed

lemma sub_item_instantiation_stages:
  assumes "sub_item_instantiation e csv package n sub_item = Inr inst"
  obtains path j t1 t2 t3 t4 where
    "dict_get package sub_item = Inr path" and "exiftool e path = Inr j"
    and "universal_fields e path j
           (set_text ''md5'' '''' (template (instantation_generation sub_item))) = Inr t1"
    and "raster_fields j t1 = Inr t2"
    and "derivation_fields e csv package sub_item t2 = Inr t3"
    and "optional_fields j t3 = Inr t4"
    and "inst = Element ''instantations''
           [(''relationship'',
             if instantation_generation sub_item = ''Print'' then ''object''
             else ''Page '' @ str_nat n)] None
           [Element ''instantation'' [(''generation'', instantation_generation sub_item)] None
             [Element ''technical'' [] None t4]]"
proof -
  from assms obtain path j t1 t2 t3 t4 where
    "dict_get package sub_item = Inr path" "exiftool e path = Inr j"
    "universal_fields e path j
       (set_text ''md5'' []
          (technical_of (create_instantiations n (instantation_generation sub_item)))) = Inr t1"
    "raster_fields j t1 = Inr t2"
    "derivation_fields e csv package sub_item t2 = Inr t3"
    "optional_fields j t3 = Inr t4"
    "inst = update_technical t4 (create_instantiations n (instantation_generation sub_item))"
    unfolding sub_item_instantiation_def Let_def by auto
  then show ?thesis
    using that[of path j t1 t2 t3 t4] by (simp add: create_instantiations_tree)
qed

subsection \<open>Texts of the template and of the finished instantiation\<close>

lemma count_list_distinct:
  "distinct xs \<Longrightarrow> count_list xs x = (if x \<in> set xs then 1 else 0)"
  by (induction xs) auto

lemma distinct_technical_elements: "distinct technical_elements"
  by (simp add: technical_elements_def)

lemma tags_new_elements: "map el_tag (map new_element xs) = xs"
  by (induction xs) (simp_all add: new_element_def)

lemma template_tags:
  "set (map el_tag (template g)) = set technical_elements \<and> distinct (map el_tag (template g))
   \<and> length (template g) = 18
   \<and> (g \<noteq> ''Print'' \<longrightarrow> map el_tag (template g) = technical_elements)"
proof -
  have perm: "set (hd xs # rev (tl xs)) = set xs \<and> distinct (hd xs # rev (tl xs)) = distinct xs
      \<and> length (hd xs # rev (tl xs)) = length xs" if "xs \<noteq> []" for xs :: "string list"
    using that by (cases xs) auto
  have ne: "technical_elements \<noteq> []" and len: "length technical_elements = 18"
    by (simp_all add: technical_elements_def)
  have tags: "map el_tag (template g)
      = (if g = ''Print'' then hd technical_elements # rev (tl technical_elements)
         else technical_elements)"
    unfolding template_def by (rule tags_new_elements)
  have "length (template g) = length (map el_tag (template g))"
    by simp
  then show ?thesis
    unfolding tags using perm[OF ne] distinct_technical_elements len
    by (cases "g = ''Print''") (simp_all del: set_simps distinct.simps list.size)
qed

lemma template_texts:
  assumes "t \<in> set technical_elements"
  shows "texts_of t (template g) = [None]"
proof -
  have perm: "set (hd xs # rev (tl xs)) = set xs \<and> distinct (hd xs # rev (tl xs)) = distinct xs"
    if "xs \<noteq> []" for xs :: "string list"
    using that by (cases xs) auto
  have ne: "technical_elements \<noteq> []"
    by (simp add: technical_elements_def)
  have "count_list (if g = ''Print'' then hd technical_elements # rev (tl technical_elements)
                    else technical_elements) t = 1"
    using perm[OF ne] distinct_technical_elements assms
    by (simp add: count_list_distinct del: set_simps distinct.simps count_list.simps)
  then show ?thesis
    by (simp add: template_def texts_of_new_elements del: count_list.simps)
qed

lemma template_leaves: "list_all (\<lambda>e. el_children e = []) (template g)"
  by (simp add: template_def new_element_def list_all_iff)

lemma leaves_set_text [simp]:
  "list_all (\<lambda>e. el_children e = []) (set_text t v tech)
     = list_all (\<lambda>e. el_children e = []) tech"
  by (induction tech) (auto simp: set_text_def)

lemma leaves_set_child_attrib [simp]:
  "list_all (\<lambda>e. el_children e = []) (set_child_attrib t k v tech)
     = list_all (\<lambda>e. el_children e = []) tech"
  by (induction tech) (auto simp: set_child_attrib_def set_attrib_def)

lemma leaves_remove_child:
  "list_all (\<lambda>e. el_children e = []) tech
     \<Longrightarrow> list_all (\<lambda>e. el_children e = []) (remove_child t tech)"
  by (simp add: remove_child_def list_all_iff)

lemma universal_fields_leaves:
  assumes "universal_fields e path j tech = Inr tech'"
    and "list_all (\<lambda>e. el_children e = []) tech"
  shows "list_all (\<lambda>e. el_children e = []) tech'"
  using assms unfolding universal_fields_def by (auto simp: Let_def)

lemma derivation_fields_leaves:
  assumes "derivation_fields e csv package sub_item tech = Inr tech'"
    and "list_all (\<lambda>e. el_children e = []) tech"
  shows "list_all (\<lambda>e. el_children e = []) tech'"
  using assms unfolding derivation_fields_def by (auto simp: Let_def split: if_splits)

lemma optional_field_leaves:
  assumes "optional_field j key t tech = Inr tech'"
    and "list_all (\<lambda>e. el_children e = []) tech"
  shows "list_all (\<lambda>e. el_children e = []) tech'"
  using assms leaves_remove_child[of tech t] unfolding optional_field_result
  by (cases "j key") auto

lemma optional_fields_leaves:
  assumes "optional_fields j tech = Inr tech'"
    and "list_all (\<lambda>e. el_children e = []) tech"
  shows "list_all (\<lambda>e. el_children e = []) tech'"
proof -
  from assms(1) obtain a b c d where s:
    "optional_field j ''ColorComponents'' ''samplesPerPixel'' tech = Inr a"
    "optional_field j ''Compression'' ''compression'' a = Inr b"
    "optional_field j ''CreatorTool'' ''creatingApplicationAndVersion'' b = Inr c"
    "optional_field j ''Make'' ''digitizerManufacturer'' c = Inr d"
    "optional_field j ''Model'' ''digitizerModel'' d = Inr tech'"
    by (rule optional_fields_steps)
  show ?thesis
    by (rule optional_field_leaves[OF s(5)], rule optional_field_leaves[OF s(4)],
        rule optional_field_leaves[OF s(3)], rule optional_field_leaves[OF s(2)],
        rule optional_field_leaves[OF s(1)], rule assms(2))
qed

subsection \<open>Pruning\<close>

lemma el_tag_prune [simp]: "el_tag (prune e) = el_tag e"
  by (cases e) simp

lemma technical_of_prune_tree:
  "technical_of (prune (Element a b c [Element d f g [Element h i j tech]]))
     = map prune (filter (\<lambda>c. \<not> no_node c) tech)"
  by (cases "tech = []") (simp_all add: technical_of_def no_node_def)

lemma el_tag_comp_prune [simp]: "el_tag \<circ> prune = el_tag"
  by (rule ext) simp

lemma pruned_tags_subseq:
  "subseq (map el_tag (map prune (filter (\<lambda>c. \<not> no_node c) tech))) (map el_tag tech)"
proof -
  have "subseq (map el_tag (filter (\<lambda>c. \<not> no_node c) tech)) (map el_tag tech)"
    by (rule subseq_map) simp
  then show ?thesis by simp
qed

lemma pruned_tag_absent:
  assumes "list_all (\<lambda>e. el_children e = []) tech" and "set (texts_of t tech) \<subseteq> {None}"
  shows "t \<notin> set (map el_tag (map prune (filter (\<lambda>c. \<not> no_node c) tech)))"
proof
  assume "t \<in> set (map el_tag (map prune (filter (\<lambda>c. \<not> no_node c) tech)))"
  then obtain e where e: "e \<in> set tech" "\<not> no_node e" "el_tag e = t"
    by auto
  then have "el_text e \<in> set (texts_of t tech)"
    by (auto simp: texts_of_def)
  with assms(2) have "el_text e = None" by auto
  with assms(1) e(1,2) show False
    by (simp add: no_node_def list_all_iff)
qed

subsection \<open>Derivation reference and checksum\<close>

lemma derivation_fields_object_identifier:
  assumes "derivation_fields e csv package sub_item tech = Inr tech'"
    and "sub_item = ''Preservation'' \<or> sub_item = ''Preservation_01''"
  shows "\<exists>d. csv ''Object Identifier'' = Some d
           \<and> texts_of ''derivedFrom'' tech' = map (\<lambda>_. Some d) (texts_of ''derivedFrom'' tech)"
  using assms unfolding derivation_fields_def
  by (auto simp: Let_def lookup_def split: option.splits)

lemma derivation_fields_preservation_name:
  assumes "derivation_fields e csv package sub_item tech = Inr tech'"
    and "sub_item = ''Access'' \<or> sub_item = ''Access_01''"
  shows "\<exists>p. map_of package ''Preservation'' = Some p
           \<and> texts_of ''derivedFrom'' tech'
               = map (\<lambda>_. Some (basename p)) (texts_of ''derivedFrom'' tech)"
  using assms unfolding derivation_fields_def
  by (auto simp: Let_def dict_get_def split: option.splits)

lemma derivation_fields_print:
  assumes "derivation_fields e csv package sub_item tech = Inr tech'" and "sub_item = ''Print''"
  shows "texts_of ''derivedFrom'' tech'
           = map (\<lambda>_. Some ''Bound from multiple tiff files'') (texts_of ''derivedFrom'' tech)"
  using assms unfolding derivation_fields_def
  by (auto simp: Let_def)

lemma derivation_fields_md5:
  assumes "derivation_fields e csv package sub_item tech = Inr tech'"
  shows "\<forall>(s, k) \<in> set checksum_keys. sub_item = s \<longrightarrow>
           (\<exists>m c. map_of package k = Some m \<and> extract_checksum e m = Inr c
              \<and> texts_of ''md5'' tech' = map (\<lambda>_. Some c) (texts_of ''md5'' tech))"
  using assms unfolding derivation_fields_def checksum_keys_def
  by (auto simp: Let_def dict_get_def split: option.splits)

lemma technical_elements_members:
  "''derivedFrom'' \<in> set technical_elements" "''md5'' \<in> set technical_elements"
  "''fileExtension'' \<in> set technical_elements"
  "set raster_tags \<subseteq> set technical_elements"
  "snd ` set optional_pairs \<subseteq> set technical_elements"
  by (simp_all add: technical_elements_def raster_tags_def optional_pairs_def)

lemma tag_classes:
  "''derivedFrom'' \<notin> snd ` set optional_pairs" "''md5'' \<notin> snd ` set optional_pairs"
  "''derivedFrom'' \<notin> set raster_tags" "''md5'' \<notin> set raster_tags"
  by (simp_all add: raster_tags_def optional_pairs_def)

lemma optional_tag_other:
  assumes "t \<in> snd ` set optional_pairs"
  shows "t \<notin> set raster_tags"
    and "t \<notin> {''digitalFileIdentifier'', ''creationDate'', ''size'',
                ''standardAndFileWrapper'', ''fileExtension''}"
    and "t \<noteq> ''derivedFrom''" and "t \<noteq> ''md5''" and "t \<in> set technical_elements"
  using assms by (auto simp: optional_pairs_def raster_tags_def technical_elements_def)

lemma raster_tag_other:
  assumes "t \<in> set raster_tags"
  shows "t \<notin> snd ` set optional_pairs"
    and "t \<notin> {''digitalFileIdentifier'', ''creationDate'', ''size'',
                ''standardAndFileWrapper'', ''fileExtension''}"
    and "t \<noteq> ''derivedFrom''" and "t \<noteq> ''md5''" and "t \<in> set technical_elements"
  using assms by (auto simp: optional_pairs_def raster_tags_def technical_elements_def)

text \<open>
  C2.  For every instantiation that the synthesizer finishes: under the keys
  \<open>Preservation\<close> and \<open>Preservation_01\<close> the derived-from text is the record's
  Object Identifier, under \<open>Access\<close> and \<open>Access_01\<close> it is the base name of the
  unit's \<open>Preservation\<close> path, under \<open>Print\<close> it is the literal
  \<open>Bound from multiple tiff files\<close>; the checksum text is what \<open>extract_checksum\<close>
  returns for the unit's \<open>master_checksum\<close>, \<open>Preservation_01_md5\<close>,
  \<open>access_checksum\<close>, \<open>Access_01_md5\<close> or \<open>print_checksum\<close> path respectively.
\<close>

theorem derived_from_and_checksum:
  assumes "sub_item_instantiation e csv_record package n sub_item = Inr inst"
  shows
    "(sub_item = ''Preservation'' \<or> sub_item = ''Preservation_01'' \<longrightarrow>
        (\<exists>d. csv_record ''Object Identifier'' = Some d
           \<and> texts_of ''derivedFrom'' (technical_of inst) = [Some d]))
     \<and> (sub_item = ''Access'' \<or> sub_item = ''Access_01'' \<longrightarrow>
        (\<exists>p. map_of package ''Preservation'' = Some p
           \<and> texts_of ''derivedFrom'' (technical_of inst) = [Some (basename p)]))
     \<and> (sub_item = ''Print'' \<longrightarrow>
        texts_of ''derivedFrom'' (technical_of inst) = [Some ''Bound from multiple tiff files''])
     \<and> (\<forall>(s, k) \<in> set checksum_keys. sub_item = s \<longrightarrow>
        (\<exists>m c. map_of package k = Some m \<and> extract_checksum e m = Inr c
           \<and> texts_of ''md5'' (technical_of inst) = [Some c]))"
proof -
  let ?g = "instantation_generation sub_item"
  from assms obtain path j t1 t2 t3 t4 where
    u: "universal_fields e path j (set_text ''md5'' '''' (template ?g)) = Inr t1"
    and r: "raster_fields j t1 = Inr t2"
    and d: "derivation_fields e csv_record package sub_item t2 = Inr t3"
    and o: "optional_fields j t3 = Inr t4"
    and inst: "technical_of inst = t4"
    by (rule sub_item_instantiation_stages) simp
  have before: "texts_of ''derivedFrom'' t2 = [None]" "texts_of ''md5'' t2 = [Some '''']"
    using universal_fields_texts[OF u] raster_fields_texts[OF r] tag_classes(3,4)
      template_texts[OF technical_elements_members(1), of ?g]
      template_texts[OF technical_elements_members(2), of ?g]
    by simp_all
  have after: "texts_of ''derivedFrom'' t4 = texts_of ''derivedFrom'' t3"
    "texts_of ''md5'' t4 = texts_of ''md5'' t3"
    using optional_fields_texts_other[OF o] tag_classes(1,2) by simp_all
  show ?thesis
    unfolding inst after
    using derivation_fields_object_identifier[OF d] derivation_fields_preservation_name[OF d]
      derivation_fields_print[OF d] derivation_fields_md5[OF d]
    by (simp add: before)
qed

subsection \<open>Optional fields\<close>

text \<open>
  C9.  For every instantiation that the synthesizer finishes, and for each of the
  five optional fields on its own: if the tool's object has the key, the output has
  exactly one element of that tag and its text is the printed value; if the key is
  missing, the output has no element of that tag.  The five \<open>try\<close> blocks raise
  nothing for a missing key: they fail only when a value that is present cannot be
  printed.
\<close>

theorem optional_fields_independent:
  assumes "sub_item_instantiation e csv_record package n sub_item = Inr inst"
  shows
    "(\<exists>path j. dict_get package sub_item = Inr path \<and> exiftool e path = Inr j
        \<and> (\<forall>(key, t) \<in> set optional_pairs.
              case j key of
                None \<Rightarrow> texts_of t (technical_of inst) = []
              | Some v \<Rightarrow> \<exists>s. py_str v = Inr s \<and> texts_of t (technical_of inst) = [Some s]))
     \<and> ((\<forall>(key, t) \<in> set optional_pairs. \<forall>v. j' key = Some v \<longrightarrow> (\<exists>s. py_str v = Inr s))
          \<longrightarrow> (\<exists>tech'. optional_fields j' tech = Inr tech'))"
proof -
  let ?g = "instantation_generation sub_item"
  from assms obtain path j t1 t2 t3 t4 where
    p: "dict_get package sub_item = Inr path" and x: "exiftool e path = Inr j"
    and u: "universal_fields e path j (set_text ''md5'' '''' (template ?g)) = Inr t1"
    and r: "raster_fields j t1 = Inr t2"
    and d: "derivation_fields e csv_record package sub_item t2 = Inr t3"
    and o: "optional_fields j t3 = Inr t4"
    and inst: "technical_of inst = t4"
    by (rule sub_item_instantiation_stages) simp
  have before: "texts_of t t3 = [None]" if "t \<in> snd ` set optional_pairs" for t
  proof -
    note n = optional_tag_other[OF that]
    from n(5) have "t \<in> set technical_elements" .
    then have "texts_of t (set_text ''md5'' '''' (template ?g)) = [None]"
      using n(4) by (simp add: template_texts)
    then show ?thesis
      using universal_fields_texts[OF u n(2)] raster_fields_texts[OF r n(1)]
        derivation_fields_texts[OF d n(3,4)]
      by simp
  qed
  have "\<forall>(key, t) \<in> set optional_pairs.
          case j key of
            None \<Rightarrow> texts_of t t4 = []
          | Some v \<Rightarrow> \<exists>s. py_str v = Inr s \<and> texts_of t t4 = [Some s]"
  proof (clarify)
    fix key t
    assume m: "(key, t) \<in> set optional_pairs"
    then have "t \<in> snd ` set optional_pairs" by force
    from before[OF this] optional_fields_texts[OF o, rule_format, OF m]
    show "case j key of
            None \<Rightarrow> texts_of t t4 = []
          | Some v \<Rightarrow> \<exists>s. py_str v = Inr s \<and> texts_of t t4 = [Some s]"
      by (cases "j key") simp_all
  qed
  with p x inst optional_fields_no_error[of j' tech] show ?thesis
    by blast
qed

subsection \<open>Evaluation on the sample package\<close>

lemma sample_size: "size_text 123456 = ''0.12''"
  by (simp add: size_text_def size_hundredths_int str_hundredths_def str_nat.simps digit_def)

lemmas stage_defs =
  universal_fields_def raster_fields_def derivation_fields_def optional_fields_def
  optional_field_def

lemmas value_defs =
  lookup_def dict_get_def text_value_def str_method_def py_str_def py_int_def str_int_def
  str_nat.simps digit_def lower_def basename_def get_text_def
  extract_checksum_def readlines_def replace_count.simps
  bit_depth_def Spec2Isabelle.split_def is_space_def int_of_str_def strip_def digit_value_def

lemmas tree_defs =
  set_text_def set_child_attrib_def set_attrib_def remove_child_def new_element_def
  template_def technical_elements_def

lemmas sample_defs =
  sample_env_def sample_exiftool_def sample_getsize_def sample_read_file_def
  sample_tiff_def sample_jpeg_def sample_pdf_def sample_csv_def
  sample_print_unit_def sample_page_unit_def
  endswith_def startswith_def suffix_to_prefix

lemma sample_preservation_runs:
  "\<exists>inst. sub_item_instantiation sample_env sample_csv sample_page_unit 1 ''Preservation'' = Inr inst"
  by (simp add: sub_item_instantiation_def instantation_generation_def create_instantiations_tree
      stage_defs value_defs tree_defs sample_defs sample_size Let_def
      cong: and_then_weak_cong let_weak_cong split del: if_split)

lemma sample_print_runs:
  "\<exists>inst. sub_item_instantiation sample_env sample_csv sample_print_unit 1 ''Print'' = Inr inst"
  by (simp add: sub_item_instantiation_def instantation_generation_def create_instantiations_tree
      stage_defs value_defs tree_defs sample_defs sample_size Let_def
      cong: and_then_weak_cong let_weak_cong split del: if_split)

lemma sample_paths:
  "dict_get sample_page_unit ''Preservation'' = Inr ''in/obj1/p1_prsv.tif''"
  "map_of sample_page_unit ''master_checksum'' = Some ''in/obj1/p1_prsv.tif.md5''"
  "dict_get sample_print_unit ''Print'' = Inr ''in/obj1/obj1.pdf''"
  "exiftool sample_env ''in/obj1/p1_prsv.tif'' = Inr sample_tiff"
  "exiftool sample_env ''in/obj1/obj1.pdf'' = Inr sample_pdf"
  "extract_checksum sample_env ''in/obj1/p1_prsv.tif.md5'' = Inr ''0123456789abcdef0123456789abcdef''"
  "sample_csv ''Object Identifier'' = Some ''obj1''"
  by (simp_all add: sample_defs dict_get_def extract_checksum_def readlines_def basename_def)

theorem derived_from_and_checksum_witness:
  "\<exists>inst. sub_item_instantiation sample_env sample_csv sample_page_unit 1 ''Preservation'' = Inr inst
     \<and> texts_of ''derivedFrom'' (technical_of inst) = [Some ''obj1'']
     \<and> texts_of ''md5'' (technical_of inst) = [Some ''0123456789abcdef0123456789abcdef'']"
proof -
  from sample_preservation_runs obtain inst where
    h: "sub_item_instantiation sample_env sample_csv sample_page_unit 1 ''Preservation'' = Inr inst"
    by blast
  note c = derived_from_and_checksum[OF h]
  from c[THEN conjunct1] have "\<exists>d. sample_csv ''Object Identifier'' = Some d
      \<and> texts_of ''derivedFrom'' (technical_of inst) = [Some d]"
    by simp
  then have d: "texts_of ''derivedFrom'' (technical_of inst) = [Some ''obj1'']"
    by (simp add: sample_paths)
  have k: "(''Preservation'', ''master_checksum'') \<in> set checksum_keys"
    by (simp add: checksum_keys_def)
  from c[THEN conjunct2, THEN conjunct2, THEN conjunct2, rule_format, OF k]
  have "\<exists>m c. map_of sample_page_unit ''master_checksum'' = Some m
      \<and> extract_checksum sample_env m = Inr c \<and> texts_of ''md5'' (technical_of inst) = [Some c]"
    by simp
  then have m: "texts_of ''md5'' (technical_of inst) = [Some ''0123456789abcdef0123456789abcdef'']"
    by (auto simp: sample_paths)
  from h d m show ?thesis by blast
qed

theorem optional_fields_independent_witness:
  "\<exists>inst. sub_item_instantiation sample_env sample_csv sample_page_unit 1 ''Preservation'' = Inr inst
     \<and> texts_of ''compression'' (technical_of inst) = [Some ''Uncompressed'']
     \<and> texts_of ''samplesPerPixel'' (technical_of inst) = []
     \<and> (\<exists>tech'. optional_fields sample_tiff [] = Inr tech')"
proof -
  from sample_preservation_runs obtain inst where
    h: "sub_item_instantiation sample_env sample_csv sample_page_unit 1 ''Preservation'' = Inr inst"
    by blast
  note c = optional_fields_independent[OF h, where j' = sample_tiff and tech = "[]"]
  from c have all: "\<forall>(key, t) \<in> set optional_pairs.
      case sample_tiff key of
        None \<Rightarrow> texts_of t (technical_of inst) = []
      | Some v \<Rightarrow> \<exists>s. py_str v = Inr s \<and> texts_of t (technical_of inst) = [Some s]"
    by (auto simp: sample_paths)
  have "(''Compression'', ''compression'') \<in> set optional_pairs"
    "(''ColorComponents'', ''samplesPerPixel'') \<in> set optional_pairs"
    by (simp_all add: optional_pairs_def)
  from all[rule_format, OF this(1)] all[rule_format, OF this(2)]
  have f: "texts_of ''compression'' (technical_of inst) = [Some ''Uncompressed'']"
    "texts_of ''samplesPerPixel'' (technical_of inst) = []"
    by (simp_all add: sample_tiff_def py_str_def)
  have printable: "\<forall>(key, t) \<in> set optional_pairs.
      \<forall>v. sample_tiff key = Some v \<longrightarrow> (\<exists>s. py_str v = Inr s)"
    by (simp add: optional_pairs_def sample_tiff_def py_str_def)
  with c have "\<exists>tech'. optional_fields sample_tiff [] = Inr tech'"
    by blast
  with h f show ?thesis by blast
qed

end
